theory Spec2Isabelle
  imports Main "HOL-Library.Multiset"
begin

section \<open>The ledger and reconciliation engine of nwc-otm (src/index.ts)\<close>

text \<open>
  The service keeps two module-level variables, \<^verbatim>\<open>balances\<close> (an object from client
  public key to number) and \<^verbatim>\<open>pending\<close> (an array of transactions tagged with their
  owner), and mutates them from the handlers of each client's wallet service and from
  the handler of the upstream wallet's \<^verbatim>\<open>payment_received\<close> notification.

  Numbers are modelled as \<open>int\<close>: amounts are millisatoshis and timestamps are integers,
  on which JavaScript's doubles compute exactly below \<open>2 ^ 53\<close>. An optional property
  (\<^verbatim>\<open>invoice?: string\<close>) is an \<open>option\<close>. An \<^verbatim>\<open>async\<close> handler is split at its
  \<^verbatim>\<open>await\<close>: a \<open>_begin\<close> function runs up to the call of the upstream wallet and a
  \<open>_resume\<close> function runs from the upstream's answer, given as \<open>error + 'a\<close>
  (\<open>Inl\<close> when the awaited promise rejects), to the end. Other handlers can run
  between the two.
\<close>

subsection \<open>JavaScript values\<close>

text \<open>\<^verbatim>\<open>throw new Error(msg)\<close> and a rejected upstream promise.\<close>

datatype error = Error string

text \<open>
  Truthiness, as \<^verbatim>\<open>&&\<close> and \<^verbatim>\<open>||\<close> test it: \<^verbatim>\<open>undefined\<close>, the empty string and
  \<^verbatim>\<open>0\<close> are falsy.
\<close>

definition truthy_string :: "string option \<Rightarrow> bool" where
  "truthy_string x = (case x of None \<Rightarrow> False | Some s \<Rightarrow> s \<noteq> [])"

text \<open>\<^verbatim>\<open>x || 0\<close> on an optional number.\<close>

definition or_zero :: "int option \<Rightarrow> int" where
  "or_zero x = (case x of None \<Rightarrow> 0 | Some n \<Rightarrow> if n \<noteq> 0 then n else 0)"

text \<open>\<^verbatim>\<open>a && b && a === b\<close> on two optional strings.\<close>

definition both_and_equal :: "string option \<Rightarrow> string option \<Rightarrow> bool" where
  "both_and_equal a b = (truthy_string a \<and> truthy_string b \<and> a = b)"

subsection \<open>Data\<close>

text \<open>
  The fields of the library's \<^verbatim>\<open>Transaction\<close> that the code reads. A
  \<^verbatim>\<open>payment_received\<close> notification and the result of \<^verbatim>\<open>lookupInvoice\<close> and of
  \<^verbatim>\<open>makeInvoice\<close> are transactions; an element of \<^verbatim>\<open>pending\<close> is a transaction with
  an \<^verbatim>\<open>owner\<close>.
\<close>

record transaction =
  tx_type :: string
  state :: "string option"
  invoice :: "string option"
  description_hash :: "string option"
  payment_hash :: "string option"
  amount :: int
  expires_at :: "int option"

record pending_invoice = transaction +
  owner :: string

text \<open>\<^verbatim>\<open>{ ...transaction, owner: clientPubkey }\<close>\<close>

definition with_owner :: "transaction \<Rightarrow> string \<Rightarrow> pending_invoice" where
  "with_owner t clientPubkey =
     \<lparr>tx_type = tx_type t, state = state t, invoice = invoice t,
      description_hash = description_hash t, payment_hash = payment_hash t,
      amount = amount t, expires_at = expires_at t, owner = clientPubkey\<rparr>"

record pay_invoice_params =
  params_invoice :: string
  params_amount :: "int option"

record make_invoice_params =
  make_amount :: int
  make_description :: "string option"
  make_description_hash :: "string option"
  make_expiry :: "int option"

record lookup_invoice_params =
  lookup_payment_hash :: "string option"
  lookup_invoice :: "string option"

datatype pay_result = PayResult (preimage: string)

text \<open>The calls the handlers make on the upstream wallet, with their arguments.\<close>

datatype upstream_call =
    PayInvoice string "int option"
  | MakeInvoice int make_invoice_params
  | LookupInvoice "string option" "string option"

text \<open>
  The module's state. \<open>clientServices\<close> holds the keys of the map of live wallet
  services. \<open>upstream_calls\<close> and \<open>notified\<close> are not variables of the program: they
  record, in order, the calls made on the upstream wallet and the notifications
  forwarded to clients (\<^verbatim>\<open>client.notify\<close>).
\<close>

record service =
  balances :: "string \<rightharpoonup> int"
  pending :: "pending_invoice list"
  clientServices :: "string set"
  upstream_calls :: "upstream_call list"
  notified :: "(string \<times> transaction) list"

subsection \<open>The pending table\<close>

text \<open>
  \<^verbatim>\<open>pending.filter((p) => p.expires_at && p.expires_at > now)\<close>: the predicate is falsy
  when \<^verbatim>\<open>expires_at\<close> is \<^verbatim>\<open>undefined\<close> or \<^verbatim>\<open>0\<close>, and the comparison otherwise.
  \<open>now\<close> is the value of \<^verbatim>\<open>Date.now()\<close>, a parameter here.
\<close>

definition keeps :: "int \<Rightarrow> pending_invoice \<Rightarrow> bool" where
  "keeps now p =
     (case expires_at p of None \<Rightarrow> False | Some e \<Rightarrow> if e = 0 then False else now < e)"

definition prunePending :: "int \<Rightarrow> service \<Rightarrow> service" where
  "prunePending now s = s\<lparr>pending := filter (keeps now) (pending s)\<rparr>"

text \<open>The predicate given to \<^verbatim>\<open>pending.find\<close> in the notification handler.\<close>

definition notification_matches :: "transaction \<Rightarrow> pending_invoice \<Rightarrow> bool" where
  "notification_matches notification p =
     (both_and_equal (payment_hash p) (payment_hash notification) \<or>
      both_and_equal (invoice p) (invoice notification) \<or>
      both_and_equal (description_hash p) (description_hash notification))"

text \<open>The predicate given to \<^verbatim>\<open>pending.find\<close> in \<^verbatim>\<open>lookup_invoice\<close>.\<close>

definition lookup_matches :: "transaction \<Rightarrow> pending_invoice \<Rightarrow> bool" where
  "lookup_matches check p =
     (both_and_equal (payment_hash p) (payment_hash check) \<or>
      both_and_equal (invoice p) (invoice check) \<or>
      both_and_equal (description_hash p) (description_hash check))"

text \<open>
  \<^verbatim>\<open>pending.filter((p) => p !== existing)\<close>, where \<^verbatim>\<open>existing\<close> is what
  \<^verbatim>\<open>pending.find(P)\<close> returned. \<^verbatim>\<open>!==\<close> compares object references, and every element
  of the array is an object of its own (\<^verbatim>\<open>push\<close> stores a fresh spread object,
  \<^verbatim>\<open>JSON.parse\<close> builds fresh objects, \<^verbatim>\<open>filter\<close> keeps references). So exactly the
  first element that satisfies \<open>P\<close> is dropped, also when a later element has the same
  fields.
\<close>

fun remove_existing :: "('a \<Rightarrow> bool) \<Rightarrow> 'a list \<Rightarrow> 'a list" where
  "remove_existing P [] = []"
| "remove_existing P (x # xs) = (if P x then xs else x # remove_existing P xs)"

subsection \<open>Settlement by notification\<close>

text \<open>
  The handler of \<^verbatim>\<open>upstream.notification("payment_received", ...)\<close>. It has no
  \<^verbatim>\<open>await\<close> and runs to its end.
\<close>

definition payment_received :: "transaction \<Rightarrow> service \<Rightarrow> service" where
  "payment_received notification s =
     (if tx_type notification \<noteq> ''incoming'' then s
      else case find (notification_matches notification) (pending s) of
        None \<Rightarrow> s
      | Some existing \<Rightarrow>
          s\<lparr>balances := (balances s)(owner existing \<mapsto>
               or_zero (balances s (owner existing)) + amount existing),
            notified :=
              (if owner existing \<in> clientServices s
               then notified s @ [(owner existing, notification)] else notified s),
            pending := remove_existing (notification_matches notification) (pending s)\<rparr>)"

subsection \<open>The wallet service of a client\<close>

text \<open>The start of \<^verbatim>\<open>createWalletService\<close>, and the registration of the service.\<close>

definition createWalletService :: "string \<Rightarrow> service \<Rightarrow> service" where
  "createWalletService clientPubkey s =
     (let s1 = (if balances s clientPubkey = None
                then s\<lparr>balances := (balances s)(clientPubkey \<mapsto> 0)\<rparr> else s)
      in s1\<lparr>clientServices := insert clientPubkey (clientServices s1)\<rparr>)"

text \<open>The \<^verbatim>\<open>tap\<close> of the relay subscription, on a request signed by \<open>pubkey\<close>.\<close>

definition on_request :: "string \<Rightarrow> service \<Rightarrow> service" where
  "on_request pubkey s =
     (if pubkey \<in> clientServices s then s else createWalletService pubkey s)"

definition get_balance :: "string \<Rightarrow> service \<Rightarrow> int" where
  "get_balance clientPubkey s = or_zero (balances s clientPubkey)"

text \<open>
  \<^verbatim>\<open>pay_invoice\<close> up to \<^verbatim>\<open>await upstream.payInvoice(...)\<close>: either the throw, or the
  locals \<^verbatim>\<open>(clientBalance, amount)\<close> the suspended handler holds.
\<close>

definition pay_invoice_begin ::
  "string \<Rightarrow> pay_invoice_params \<Rightarrow> service \<Rightarrow> (error + int \<times> int) \<times> service" where
  "pay_invoice_begin clientPubkey params s =
     (let clientBalance = or_zero (balances s clientPubkey);
          amt = or_zero (params_amount params)
      in if amt > clientBalance then (Inl (Error ''Insufficient balance''), s)
         else (Inr (clientBalance, amt),
               s\<lparr>upstream_calls := upstream_calls s @
                    [PayInvoice (params_invoice params) (params_amount params)]\<rparr>))"

text \<open>\<^verbatim>\<open>pay_invoice\<close> from the upstream's answer on.\<close>

definition pay_invoice_resume ::
  "string \<Rightarrow> int \<times> int \<Rightarrow> error + pay_result \<Rightarrow> service \<Rightarrow> (error + pay_result) \<times> service"
  where
  "pay_invoice_resume clientPubkey locals result s =
     (case result of
        Inl e \<Rightarrow> (Inl e, s)
      | Inr r \<Rightarrow> (Inr r, s\<lparr>balances := (balances s)(clientPubkey \<mapsto> fst locals - snd locals)\<rparr>))"

text \<open>
  \<^verbatim>\<open>pay_invoice\<close> when no other handler runs during its \<^verbatim>\<open>await\<close>; \<open>result\<close> is what
  the upstream answers if it is called.
\<close>

definition pay_invoice ::
  "string \<Rightarrow> pay_invoice_params \<Rightarrow> error + pay_result \<Rightarrow> service \<Rightarrow> (error + pay_result) \<times> service"
  where
  "pay_invoice clientPubkey params result s =
     (case pay_invoice_begin clientPubkey params s of
        (Inl e, s') \<Rightarrow> (Inl e, s')
      | (Inr locals, s') \<Rightarrow> pay_invoice_resume clientPubkey locals result s')"

text \<open>\<^verbatim>\<open>make_invoice\<close>: the call of the upstream, then the push.\<close>

definition make_invoice_begin :: "make_invoice_params \<Rightarrow> service \<Rightarrow> service" where
  "make_invoice_begin params s =
     s\<lparr>upstream_calls := upstream_calls s @ [MakeInvoice (make_amount params) params]\<rparr>"

definition make_invoice_resume ::
  "string \<Rightarrow> error + transaction \<Rightarrow> service \<Rightarrow> (error + transaction) \<times> service" where
  "make_invoice_resume clientPubkey result s =
     (case result of
        Inl e \<Rightarrow> (Inl e, s)
      | Inr t \<Rightarrow> (Inr t, s\<lparr>pending := pending s @ [with_owner t clientPubkey]\<rparr>))"

definition make_invoice ::
  "string \<Rightarrow> make_invoice_params \<Rightarrow> error + transaction \<Rightarrow> service \<Rightarrow>
   (error + transaction) \<times> service" where
  "make_invoice clientPubkey params result s =
     make_invoice_resume clientPubkey result (make_invoice_begin params s)"

text \<open>\<^verbatim>\<open>lookup_invoice\<close>: the call of the upstream, then the reconciliation.\<close>

definition lookup_invoice_begin :: "lookup_invoice_params \<Rightarrow> service \<Rightarrow> service" where
  "lookup_invoice_begin params s =
     s\<lparr>upstream_calls := upstream_calls s @
          [LookupInvoice (lookup_payment_hash params) (lookup_invoice params)]\<rparr>"

definition lookup_invoice_resume ::
  "error + transaction \<Rightarrow> service \<Rightarrow> (error + transaction) \<times> service" where
  "lookup_invoice_resume result s =
     (case result of
        Inl e \<Rightarrow> (Inl e, s)
      | Inr check \<Rightarrow>
          (Inr check,
           if state check = Some ''settled'' then
             (case find (lookup_matches check) (pending s) of
                None \<Rightarrow> s
              | Some existing \<Rightarrow>
                  if state existing = Some ''pending'' then
                    s\<lparr>balances := (balances s)(owner existing \<mapsto>
                         or_zero (balances s (owner existing)) + amount existing),
                      pending := remove_existing (lookup_matches check) (pending s)\<rparr>
                  else s)
           else s))"

definition lookup_invoice ::
  "lookup_invoice_params \<Rightarrow> error + transaction \<Rightarrow> service \<Rightarrow>
   (error + transaction) \<times> service" where
  "lookup_invoice params result s = lookup_invoice_resume result (lookup_invoice_begin params s)"

subsection \<open>The matching predicate in the specification's words\<close>

text \<open>
  Section 4.4 of the specification: true if any of (payment hash equal and both
  present), (invoice string equal and both present), (description hash equal and both
  present) holds. A key is present when the property is there, whatever string it holds.
\<close>

definition spec_matches :: "transaction \<Rightarrow> pending_invoice \<Rightarrow> bool" where
  "spec_matches e p =
     ((payment_hash e \<noteq> None \<and> payment_hash p \<noteq> None \<and> payment_hash e = payment_hash p) \<or>
      (invoice e \<noteq> None \<and> invoice p \<noteq> None \<and> invoice e = invoice p) \<or>
      (description_hash e \<noteq> None \<and> description_hash p \<noteq> None \<and>
         description_hash e = description_hash p))"

subsection \<open>Concrete inputs\<close>

text \<open>
  The restart scenario of the specification: balances \<^verbatim>\<open>{A: 100, B: 0}\<close> and one pending
  invoice of 50 owned by \<open>A\<close> with payment hash \<open>h1\<close>; and a second invoice, of 70, made
  for the same description (so with the same description hash) and another payment hash.
\<close>

definition invoice_h1 :: transaction where
  "invoice_h1 =
     \<lparr>tx_type = ''incoming'', state = Some ''pending'', invoice = Some ''lnbc500n1'',
      description_hash = Some ''d1'', payment_hash = Some ''h1'', amount = 50,
      expires_at = Some 2000\<rparr>"

definition invoice_h2 :: transaction where
  "invoice_h2 =
     \<lparr>tx_type = ''incoming'', state = Some ''pending'', invoice = Some ''lnbc700n1'',
      description_hash = Some ''d1'', payment_hash = Some ''h2'', amount = 70,
      expires_at = Some 3000\<rparr>"

text \<open>What the upstream reports once \<open>invoice_h1\<close> is paid.\<close>

definition settled_h1 :: transaction where
  "settled_h1 = invoice_h1\<lparr>state := Some ''settled''\<rparr>"

definition ledger :: "pending_invoice list \<Rightarrow> service" where
  "ledger ps =
     \<lparr>balances = [''A'' \<mapsto> 100, ''B'' \<mapsto> 0], pending = ps, clientServices = {''A'', ''B''},
      upstream_calls = [], notified = []\<rparr>"

definition restart_state :: service where
  "restart_state = ledger [with_owner invoice_h1 ''A'']"

definition pay :: "int option \<Rightarrow> pay_invoice_params" where
  "pay a = \<lparr>params_invoice = ''lnbc1'', params_amount = a\<rparr>"

text \<open>A transaction whose only matching key is the payment hash \<open>h\<close>.\<close>

definition only_payment_hash :: "string \<Rightarrow> transaction" where
  "only_payment_hash h =
     \<lparr>tx_type = ''incoming'', state = Some ''pending'', invoice = None,
      description_hash = None, payment_hash = Some h, amount = 10, expires_at = None\<rparr>"

section \<open>Basic facts\<close>

lemma or_zero_Some [simp]: "or_zero (Some n) = n"
  by (simp add: or_zero_def)

lemma or_zero_None [simp]: "or_zero None = 0"
  by (simp add: or_zero_def)

lemmas example_defs =
  invoice_h1_def invoice_h2_def settled_h1_def ledger_def restart_state_def pay_def
  with_owner_def

lemmas match_defs =
  notification_matches_def lookup_matches_def both_and_equal_def truthy_string_def

lemma both_and_equal_iff:
  "both_and_equal a b \<longleftrightarrow> (\<exists>k. k \<noteq> [] \<and> a = Some k \<and> b = Some k)"
  by (cases a; cases b) (auto simp: both_and_equal_def truthy_string_def)

lemma find_in_set: "find P xs = Some x \<Longrightarrow> x \<in> set xs"
  by (induction xs) (auto split: if_splits)

lemma find_none_no_match: "find P xs = None \<longleftrightarrow> (\<forall>x\<in>set xs. \<not> P x)"
  by (induction xs) auto

text \<open>What \<open>remove_existing\<close> does to the table: nothing without a match, and otherwise
  it takes out the one entry that \<open>find\<close> returns and keeps the order of the rest.\<close>

lemma remove_existing_none: "find P xs = None \<Longrightarrow> remove_existing P xs = xs"
  by (induction xs) (auto split: if_splits)

lemma remove_existing_mset:
  "find P xs = Some x \<Longrightarrow> mset xs = add_mset x (mset (remove_existing P xs))"
  by (induction xs) (auto split: if_splits)

lemma remove_existing_split:
  "find P xs = Some x \<Longrightarrow>
   \<exists>ys zs. xs = ys @ x # zs \<and> (\<forall>y\<in>set ys. \<not> P y) \<and> P x \<and> remove_existing P xs = ys @ zs"
proof (induction xs)
  case Nil
  then show ?case by simp
next
  case (Cons a xs)
  show ?case
  proof (cases "P a")
    case True
    with Cons.prems have "a = x" by simp
    with True show ?thesis by (intro exI [of _ "[]"] exI [of _ xs]) simp
  next
    case False
    with Cons.prems have "find P xs = Some x" by simp
    from Cons.IH [OF this] obtain ys zs where
      "xs = ys @ x # zs" "\<forall>y\<in>set ys. \<not> P y" "P x" "remove_existing P xs = ys @ zs"
      by blast
    with False show ?thesis
      by (intro exI [of _ "a # ys"] exI [of _ zs]) simp
  qed
qed

section \<open>Paying an invoice\<close>

text \<open>
  Claim C1. A \<^verbatim>\<open>pay_invoice\<close> request of amount \<open>A\<close> (\<^verbatim>\<open>params.amount || 0\<close>) that no other
  handler interrupts: if \<open>A\<close> exceeds the client's balance the handler throws
  \<^verbatim>\<open>Insufficient balance\<close> and the state, the record of upstream calls included, is
  unchanged; otherwise \<^verbatim>\<open>upstream.payInvoice\<close> is called once, and when it succeeds the
  client's balance is reduced by exactly \<open>A\<close> (no other balance changes), when it fails
  the error is passed on and no balance changes. For \<open>A \<noteq> 0\<close> the balance is reduced
  by \<open>A\<close> if and only if the upstream call succeeded.
\<close>

theorem pay_invoice_checks_then_deducts:
  "(get_balance c s < or_zero (params_amount params) \<longrightarrow>
      pay_invoice c params result s = (Inl (Error ''Insufficient balance''), s)) \<and>
   (or_zero (params_amount params) \<le> get_balance c s \<longrightarrow>
      upstream_calls (snd (pay_invoice c params result s)) =
        upstream_calls s @ [PayInvoice (params_invoice params) (params_amount params)] \<and>
      (\<forall>r. result = Inr r \<longrightarrow>
         fst (pay_invoice c params result s) = Inr r \<and>
         get_balance c (snd (pay_invoice c params result s)) =
           get_balance c s - or_zero (params_amount params) \<and>
         (\<forall>c'. c' \<noteq> c \<longrightarrow>
            balances (snd (pay_invoice c params result s)) c' = balances s c')) \<and>
      (\<forall>e. result = Inl e \<longrightarrow>
         fst (pay_invoice c params result s) = Inl e \<and>
         balances (snd (pay_invoice c params result s)) = balances s) \<and>
      (or_zero (params_amount params) \<noteq> 0 \<longrightarrow>
         (get_balance c (snd (pay_invoice c params result s)) =
            get_balance c s - or_zero (params_amount params)) = (\<exists>r. result = Inr r)))"
  by (cases result)
    (auto simp: pay_invoice_def pay_invoice_begin_def pay_invoice_resume_def get_balance_def
      Let_def)

text \<open>
  With a balance of 100: a request of 150 is refused and changes nothing; a request of
  60 is forwarded, leaves 40 when the upstream pays and 100 when it fails.
\<close>

theorem pay_invoice_checks_then_deducts_witness:
  "pay_invoice ''A'' (pay (Some 150)) (Inr (PayResult ''ok'')) restart_state =
     (Inl (Error ''Insufficient balance''), restart_state) \<and>
   get_balance ''A''
     (snd (pay_invoice ''A'' (pay (Some 60)) (Inr (PayResult ''ok'')) restart_state)) = 40 \<and>
   fst (pay_invoice ''A'' (pay (Some 60)) (Inr (PayResult ''ok'')) restart_state) =
     Inr (PayResult ''ok'') \<and>
   upstream_calls
     (snd (pay_invoice ''A'' (pay (Some 60)) (Inr (PayResult ''ok'')) restart_state)) =
     [PayInvoice ''lnbc1'' (Some 60)] \<and>
   balances (snd (pay_invoice ''A'' (pay (Some 60)) (Inl (Error ''no route'')) restart_state)) =
     balances restart_state"
proof -
  have b: "get_balance ''A'' restart_state = 100"
    by (simp add: get_balance_def example_defs)
  have c: "upstream_calls restart_state = []"
    by (simp add: example_defs)
  from b have lt: "get_balance ''A'' restart_state < or_zero (params_amount (pay (Some 150)))"
    and le: "or_zero (params_amount (pay (Some 60))) \<le> get_balance ''A'' restart_state"
    by (simp_all add: pay_def)
  from lt pay_invoice_checks_then_deducts
    [where c = "''A''" and s = restart_state and params = "pay (Some 150)"
       and result = "Inr (PayResult ''ok'')"]
  have 1: "pay_invoice ''A'' (pay (Some 150)) (Inr (PayResult ''ok'')) restart_state =
     (Inl (Error ''Insufficient balance''), restart_state)"
    by blast
  from le b c pay_invoice_checks_then_deducts
    [where c = "''A''" and s = restart_state and params = "pay (Some 60)"
       and result = "Inr (PayResult ''ok'')"]
  have 2: "get_balance ''A''
       (snd (pay_invoice ''A'' (pay (Some 60)) (Inr (PayResult ''ok'')) restart_state)) = 40"
    "fst (pay_invoice ''A'' (pay (Some 60)) (Inr (PayResult ''ok'')) restart_state) =
       Inr (PayResult ''ok'')"
    "upstream_calls
       (snd (pay_invoice ''A'' (pay (Some 60)) (Inr (PayResult ''ok'')) restart_state)) =
       [PayInvoice ''lnbc1'' (Some 60)]"
    by (simp_all add: pay_def)
  from le pay_invoice_checks_then_deducts
    [where c = "''A''" and s = restart_state and params = "pay (Some 60)"
       and result = "Inl (Error ''no route'')"]
  have 3: "balances
       (snd (pay_invoice ''A'' (pay (Some 60)) (Inl (Error ''no route'')) restart_state)) =
     balances restart_state"
    by simp
  from 1 2 3 show ?thesis by simp
qed

text \<open>
  The same holds when other handlers run during the \<^verbatim>\<open>await\<close>, as long as the balance
  of the client is the same when the handler resumes: the handler writes the balance it
  read before the call, less the amount.
\<close>

lemma pay_invoice_resume_deducts:
  assumes "pay_invoice_begin c params s = (Inr locals, s1)"
  shows "get_balance c (snd (pay_invoice_resume c locals (Inr r) s')) =
           get_balance c s - or_zero (params_amount params)"
    and "snd (pay_invoice_resume c locals (Inl e) s') = s'"
  using assms
  by (auto simp: pay_invoice_begin_def pay_invoice_resume_def get_balance_def Let_def
      split: if_splits)

text \<open>
  Claim C10. For a client with a non-negative balance, zero included, a
  \<^verbatim>\<open>pay_invoice\<close> request whose \<^verbatim>\<open>amount\<close> is absent or \<open>0\<close> passes the check with the
  amount taken as \<open>0\<close>, is forwarded to the upstream wallet with the parameters as they
  came, and when the upstream succeeds returns its result and leaves every balance as
  it was.
\<close>

theorem pay_invoice_without_amount:
  "0 \<le> get_balance c s \<Longrightarrow> params_amount params = None \<or> params_amount params = Some 0 \<Longrightarrow>
   fst (pay_invoice_begin c params s) = Inr (get_balance c s, 0) \<and>
   upstream_calls (snd (pay_invoice_begin c params s)) =
     upstream_calls s @ [PayInvoice (params_invoice params) (params_amount params)] \<and>
   fst (pay_invoice c params (Inr r) s) = Inr r \<and>
   get_balance c (snd (pay_invoice c params (Inr r) s)) = get_balance c s \<and>
   (\<forall>c'. get_balance c' (snd (pay_invoice c params (Inr r) s)) = get_balance c' s)"
  by (auto simp: pay_invoice_def pay_invoice_begin_def pay_invoice_resume_def get_balance_def
      Let_def)

text \<open>Client \<open>B\<close>, with balance 0, pays an invoice without naming an amount.\<close>

theorem pay_invoice_without_amount_witness:
  "0 \<le> get_balance ''B'' restart_state \<and> get_balance ''B'' restart_state = 0 \<and>
   params_amount (pay None) = None \<and>
   fst (pay_invoice_begin ''B'' (pay None) restart_state) = Inr (0, 0) \<and>
   upstream_calls (snd (pay_invoice_begin ''B'' (pay None) restart_state)) =
     [PayInvoice ''lnbc1'' None] \<and>
   fst (pay_invoice ''B'' (pay None) (Inr (PayResult ''ok'')) restart_state) =
     Inr (PayResult ''ok'') \<and>
   get_balance ''B'' (snd (pay_invoice ''B'' (pay None) (Inr (PayResult ''ok'')) restart_state)) = 0"
proof -
  have b: "get_balance ''B'' restart_state = 0" "upstream_calls restart_state = []"
    by (simp_all add: get_balance_def example_defs)
  then have n: "0 \<le> get_balance ''B'' restart_state" by simp
  have a: "params_amount (pay None) = None" "params_invoice (pay None) = ''lnbc1''"
    by (simp_all add: pay_def)
  then have d: "params_amount (pay None) = None \<or> params_amount (pay None) = Some 0" by simp
  from pay_invoice_without_amount [OF n d, where r = "PayResult ''ok''"] a b
  show ?thesis by simp
qed

subsection \<open>Two requests of one client\<close>

text \<open>
  Handled one after the other, two requests of 60 against a balance of 100 give one
  payment and one refusal.
\<close>

lemma sequential_payments_one_passes:
  "(let r1 = pay_invoice ''A'' (pay (Some 60)) (Inr (PayResult ''p1'')) restart_state;
        r2 = pay_invoice ''A'' (pay (Some 60)) (Inr (PayResult ''p2'')) (snd r1)
    in fst r1 = Inr (PayResult ''p1'') \<and> fst r2 = Inl (Error ''Insufficient balance'') \<and>
       upstream_calls (snd r2) = [PayInvoice ''lnbc1'' (Some 60)] \<and>
       get_balance ''A'' (snd r2) = 40)"
  by (simp add: Let_def pay_invoice_def pay_invoice_begin_def pay_invoice_resume_def
      get_balance_def example_defs)

text \<open>
  The handler holds \<^verbatim>\<open>clientBalance\<close> across its \<^verbatim>\<open>await\<close> and writes
  \<^verbatim>\<open>clientBalance - amount\<close> afterwards, so whatever was written to the client's balance
  in between is overwritten: here a credit of 50 that arrives while the payment of 60
  is with the upstream wallet. The balance ends at 40, not 90.
\<close>

lemma credit_during_payment_is_lost:
  "(let b1 = pay_invoice_begin ''A'' (pay (Some 60)) restart_state;
        n = payment_received settled_h1 (snd b1);
        r1 = pay_invoice_resume ''A'' (100, 60) (Inr (PayResult ''p1'')) n
    in fst b1 = Inr (100, 60) \<and> get_balance ''A'' n = 150 \<and> pending n = [] \<and>
       get_balance ''A'' (snd r1) = 40)"
  by (simp add: Let_def pay_invoice_begin_def pay_invoice_resume_def get_balance_def
      payment_received_def match_defs example_defs)

text \<open>
  In general: when a second request of the client starts while the first awaits the
  upstream wallet, and each amount alone is within the balance, both pass the check,
  and after both upstream calls succeed only the amount of the request that resumed
  last is deducted.
\<close>

lemma overlapping_payments_deduct_one_amount:
  assumes "or_zero (params_amount p1) \<le> get_balance c s"
    and "or_zero (params_amount p2) \<le> get_balance c s"
  shows "\<exists>l1 l2 s1 s2.
           pay_invoice_begin c p1 s = (Inr l1, s1) \<and> pay_invoice_begin c p2 s1 = (Inr l2, s2) \<and>
           get_balance c (snd (pay_invoice_resume c l2 (Inr r2)
             (snd (pay_invoice_resume c l1 (Inr r1) s2)))) =
             get_balance c s - or_zero (params_amount p2)"
  using assms
  by (simp add: pay_invoice_begin_def pay_invoice_resume_def get_balance_def Let_def)

text \<open>
  Claim C2 says that two concurrent \<^verbatim>\<open>pay_invoice\<close> requests of 60 for a client with
  balance 100 are serialized, so that exactly one succeeds and the other fails with
  \<^verbatim>\<open>Insufficient balance\<close>. The code has nothing that serializes them. When the second
  request arrives while the first awaits the upstream wallet, both read the balance 100
  and pass the check, both are forwarded upstream, both return the upstream's result,
  and each writes \<open>100 - 60\<close>: 120 is paid out and the balance ends at 40.
\<close>

theorem overlapping_payments_both_pass:
  "(let b1 = pay_invoice_begin ''A'' (pay (Some 60)) restart_state;
        b2 = pay_invoice_begin ''A'' (pay (Some 60)) (snd b1);
        r1 = pay_invoice_resume ''A'' (100, 60) (Inr (PayResult ''p1'')) (snd b2);
        r2 = pay_invoice_resume ''A'' (100, 60) (Inr (PayResult ''p2'')) (snd r1)
    in get_balance ''A'' restart_state = 100 \<and>
       fst b1 = Inr (100, 60) \<and> fst b2 = Inr (100, 60) \<and>
       fst r1 = Inr (PayResult ''p1'') \<and> fst r2 = Inr (PayResult ''p2'') \<and>
       upstream_calls (snd r2) =
         [PayInvoice ''lnbc1'' (Some 60), PayInvoice ''lnbc1'' (Some 60)] \<and>
       get_balance ''A'' (snd r2) = 40)"
  by (simp add: Let_def pay_invoice_begin_def pay_invoice_resume_def get_balance_def
      example_defs)

section \<open>Settlement\<close>

subsection \<open>The matching predicate\<close>

text \<open>
  The specification's predicate counts a key that is present on both sides and equal.
  The code tests each key with \<^verbatim>\<open>&&\<close>, so an empty string counts as no key: two
  records whose only key is the payment hash \<^verbatim>\<open>""\<close> match in the specification's sense
  and not in the code's.
\<close>

theorem empty_key_does_not_match:
  "spec_matches (only_payment_hash '''') (with_owner (only_payment_hash '''') ''A'') \<and>
   \<not> notification_matches (only_payment_hash '''') (with_owner (only_payment_hash '''') ''A'') \<and>
   \<not> lookup_matches (only_payment_hash '''') (with_owner (only_payment_hash '''') ''A'')"
  by (simp add: spec_matches_def match_defs only_payment_hash_def with_owner_def)

lemma same_match_predicate: "notification_matches e p = lookup_matches e p"
  by (simp add: notification_matches_def lookup_matches_def)

lemma match_implies_spec_matches: "notification_matches e p \<Longrightarrow> spec_matches e p"
  unfolding notification_matches_def spec_matches_def both_and_equal_iff by auto

text \<open>
  Claim C8, amended. In both handlers, a settlement event \<open>e\<close> matches a pending invoice
  \<open>p\<close> if and only if at least one of these holds: both payment hashes are present,
  not empty and equal; both invoice strings are present, not empty and equal; both
  description hashes are present, not empty and equal. One shared key is enough.
\<close>

theorem match_iff_shared_non_empty_key:
  "(notification_matches e p \<longleftrightarrow>
      (\<exists>h. h \<noteq> [] \<and> payment_hash e = Some h \<and> payment_hash p = Some h) \<or>
      (\<exists>i. i \<noteq> [] \<and> invoice e = Some i \<and> invoice p = Some i) \<or>
      (\<exists>d. d \<noteq> [] \<and> description_hash e = Some d \<and> description_hash p = Some d)) \<and>
   (lookup_matches e p \<longleftrightarrow>
      (\<exists>h. h \<noteq> [] \<and> payment_hash e = Some h \<and> payment_hash p = Some h) \<or>
      (\<exists>i. i \<noteq> [] \<and> invoice e = Some i \<and> invoice p = Some i) \<or>
      (\<exists>d. d \<noteq> [] \<and> description_hash e = Some d \<and> description_hash p = Some d))"
  unfolding notification_matches_def lookup_matches_def both_and_equal_iff by blast

subsection \<open>Crediting the owner\<close>

lemma payment_received_no_match:
  "\<forall>q\<in>set (pending s). \<not> notification_matches n q \<Longrightarrow> payment_received n s = s"
  by (simp add: payment_received_def find_none_no_match [symmetric])

lemma lookup_invoice_resume_no_match:
  "\<forall>q\<in>set (pending s). \<not> lookup_matches check q \<Longrightarrow>
   lookup_invoice_resume (Inr check) s = (Inr check, s)"
  by (simp add: lookup_invoice_resume_def find_none_no_match [symmetric])

lemma payment_received_match:
  assumes "tx_type n = ''incoming''" and "find (notification_matches n) (pending s) = Some p"
  shows "get_balance (owner p) (payment_received n s) = get_balance (owner p) s + amount p"
    and "c \<noteq> owner p \<Longrightarrow> balances (payment_received n s) c = balances s c"
    and "mset (pending s) = add_mset p (mset (pending (payment_received n s)))"
    and "\<exists>ys zs. pending s = ys @ p # zs \<and> pending (payment_received n s) = ys @ zs"
  using assms remove_existing_split [OF assms(2)]
  by (auto simp: payment_received_def get_balance_def remove_existing_mset)

lemma lookup_invoice_resume_match:
  assumes "state check = Some ''settled''"
    and "find (lookup_matches check) (pending s) = Some p"
    and "state p = Some ''pending''"
  shows "get_balance (owner p) (snd (lookup_invoice_resume (Inr check) s)) =
           get_balance (owner p) s + amount p"
    and "c \<noteq> owner p \<Longrightarrow> balances (snd (lookup_invoice_resume (Inr check) s)) c = balances s c"
    and "mset (pending s) =
           add_mset p (mset (pending (snd (lookup_invoice_resume (Inr check) s))))"
    and "\<exists>ys zs. pending s = ys @ p # zs \<and>
           pending (snd (lookup_invoice_resume (Inr check) s)) = ys @ zs"
  using assms remove_existing_split [OF assms(2)]
  by (auto simp: lookup_invoice_resume_def get_balance_def remove_existing_mset)

text \<open>
  Claim C3 says that a second delivery of a settlement event finds no match. The table
  can hold another invoice that shares a key with the event: two invoices made for the
  same description have the same description hash. The first delivery of the settlement
  of \<open>h1\<close> credits \<open>A\<close> with 50 and removes that invoice; the second delivery matches the
  invoice \<open>h2\<close> of client \<open>B\<close> by its description hash, credits \<open>B\<close> with 70 and removes it.
\<close>

theorem second_delivery_credits_again:
  "find (notification_matches settled_h1)
     (pending (ledger [with_owner invoice_h1 ''A'', with_owner invoice_h2 ''B''])) =
     Some (with_owner invoice_h1 ''A'') \<and>
   get_balance ''A'' (payment_received settled_h1
     (ledger [with_owner invoice_h1 ''A'', with_owner invoice_h2 ''B''])) = 150 \<and>
   get_balance ''B'' (payment_received settled_h1
     (ledger [with_owner invoice_h1 ''A'', with_owner invoice_h2 ''B''])) = 0 \<and>
   pending (payment_received settled_h1
     (ledger [with_owner invoice_h1 ''A'', with_owner invoice_h2 ''B''])) =
     [with_owner invoice_h2 ''B''] \<and>
   get_balance ''B'' (payment_received settled_h1 (payment_received settled_h1
     (ledger [with_owner invoice_h1 ''A'', with_owner invoice_h2 ''B'']))) = 70 \<and>
   pending (payment_received settled_h1 (payment_received settled_h1
     (ledger [with_owner invoice_h1 ''A'', with_owner invoice_h2 ''B'']))) = [] \<and>
   payment_received settled_h1 (payment_received settled_h1
     (ledger [with_owner invoice_h1 ''A'', with_owner invoice_h2 ''B''])) \<noteq>
   payment_received settled_h1
     (ledger [with_owner invoice_h1 ''A'', with_owner invoice_h2 ''B''])"
proof -
  let ?s = "ledger [with_owner invoice_h1 ''A'', with_owner invoice_h2 ''B'']"
  have 1: "find (notification_matches settled_h1) (pending ?s) = Some (with_owner invoice_h1 ''A'')"
    by (simp add: match_defs example_defs)
  have 2: "get_balance ''A'' (payment_received settled_h1 ?s) = 150"
    "get_balance ''B'' (payment_received settled_h1 ?s) = 0"
    "pending (payment_received settled_h1 ?s) = [with_owner invoice_h2 ''B'']"
    by (simp_all add: payment_received_def get_balance_def match_defs example_defs)
  have 3: "get_balance ''B'' (payment_received settled_h1 (payment_received settled_h1 ?s)) = 70"
    "pending (payment_received settled_h1 (payment_received settled_h1 ?s)) = []"
    by (simp_all add: payment_received_def get_balance_def match_defs example_defs)
  from 2(3) 3(2) have 4:
    "payment_received settled_h1 (payment_received settled_h1 ?s) \<noteq> payment_received settled_h1 ?s"
    by auto
  from 1 2 3 4 show ?thesis by blast
qed

text \<open>
  Claim C3, amended. A \<^verbatim>\<open>payment_received\<close> notification of type \<^verbatim>\<open>incoming\<close> whose
  first match in the table is \<open>p\<close> credits the owner of \<open>p\<close> with exactly the amount of
  \<open>p\<close>, changes no other balance and removes exactly \<open>p\<close> from the table, the other
  entries staying in their order. A later delivery
  of the same event, or of any event, that matches none of the remaining entries is a
  no-op: balances, table and everything else are unchanged. The same holds for a
  \<^verbatim>\<open>lookup_invoice\<close> whose result is \<^verbatim>\<open>settled\<close> and whose first match \<open>p\<close> is in state
  \<^verbatim>\<open>pending\<close>. (Whether a second delivery finds another entry that shares a key is not
  part of the statement.)
\<close>

theorem settlement_credited_once:
  "(tx_type n = ''incoming'' \<and> find (notification_matches n) (pending s) = Some p \<longrightarrow>
      get_balance (owner p) (payment_received n s) = get_balance (owner p) s + amount p \<and>
      (\<forall>c. c \<noteq> owner p \<longrightarrow> balances (payment_received n s) c = balances s c) \<and>
      mset (pending s) = add_mset p (mset (pending (payment_received n s))) \<and>
      (\<exists>ys zs. pending s = ys @ p # zs \<and> pending (payment_received n s) = ys @ zs) \<and>
      (\<forall>n'. (\<forall>q\<in>set (pending (payment_received n s)). \<not> notification_matches n' q) \<longrightarrow>
         payment_received n' (payment_received n s) = payment_received n s)) \<and>
   (state check = Some ''settled'' \<and> find (lookup_matches check) (pending s) = Some p \<and>
    state p = Some ''pending'' \<longrightarrow>
      get_balance (owner p) (snd (lookup_invoice_resume (Inr check) s)) =
        get_balance (owner p) s + amount p \<and>
      (\<forall>c. c \<noteq> owner p \<longrightarrow>
         balances (snd (lookup_invoice_resume (Inr check) s)) c = balances s c) \<and>
      mset (pending s) =
        add_mset p (mset (pending (snd (lookup_invoice_resume (Inr check) s)))) \<and>
      (\<exists>ys zs. pending s = ys @ p # zs \<and>
         pending (snd (lookup_invoice_resume (Inr check) s)) = ys @ zs) \<and>
      (\<forall>check'. (\<forall>q\<in>set (pending (snd (lookup_invoice_resume (Inr check) s))).
            \<not> lookup_matches check' q) \<longrightarrow>
         snd (lookup_invoice_resume (Inr check') (snd (lookup_invoice_resume (Inr check) s))) =
           snd (lookup_invoice_resume (Inr check) s)))"
proof (intro conjI impI allI; (elim conjE)?)
  assume m: "tx_type n = ''incoming''" "find (notification_matches n) (pending s) = Some p"
  show "get_balance (owner p) (payment_received n s) = get_balance (owner p) s + amount p"
    by (rule payment_received_match(1) [OF m])
  show "mset (pending s) = add_mset p (mset (pending (payment_received n s)))"
    by (rule payment_received_match(3) [OF m])
  show "\<exists>ys zs. pending s = ys @ p # zs \<and> pending (payment_received n s) = ys @ zs"
    by (rule payment_received_match(4) [OF m])
  show "balances (payment_received n s) c = balances s c" if "c \<noteq> owner p" for c
    by (rule payment_received_match(2) [OF m that])
  show "payment_received n' (payment_received n s) = payment_received n s"
    if "\<forall>q\<in>set (pending (payment_received n s)). \<not> notification_matches n' q" for n'
    by (rule payment_received_no_match [OF that])
next
  assume m: "state check = Some ''settled''" "find (lookup_matches check) (pending s) = Some p"
    "state p = Some ''pending''"
  show "get_balance (owner p) (snd (lookup_invoice_resume (Inr check) s)) =
      get_balance (owner p) s + amount p"
    by (rule lookup_invoice_resume_match(1) [OF m])
  show "mset (pending s) = add_mset p (mset (pending (snd (lookup_invoice_resume (Inr check) s))))"
    by (rule lookup_invoice_resume_match(3) [OF m])
  show "\<exists>ys zs. pending s = ys @ p # zs \<and>
      pending (snd (lookup_invoice_resume (Inr check) s)) = ys @ zs"
    by (rule lookup_invoice_resume_match(4) [OF m])
  show "balances (snd (lookup_invoice_resume (Inr check) s)) c = balances s c"
    if "c \<noteq> owner p" for c
    by (rule lookup_invoice_resume_match(2) [OF m that])
  show "snd (lookup_invoice_resume (Inr check') (snd (lookup_invoice_resume (Inr check) s))) =
      snd (lookup_invoice_resume (Inr check) s)"
    if "\<forall>q\<in>set (pending (snd (lookup_invoice_resume (Inr check) s))). \<not> lookup_matches check' q"
    for check'
    by (simp add: lookup_invoice_resume_no_match [OF that])
qed

text \<open>
  The restart scenario of the specification: the settlement of \<open>h1\<close> brings the balance
  of \<open>A\<close> from 100 to 150 and empties the table, by either path, and a second delivery
  changes nothing.
\<close>

theorem settlement_credited_once_witness:
  "tx_type settled_h1 = ''incoming'' \<and>
   find (notification_matches settled_h1) (pending restart_state) =
     Some (with_owner invoice_h1 ''A'') \<and>
   get_balance ''A'' restart_state = 100 \<and>
   get_balance ''A'' (payment_received settled_h1 restart_state) = 150 \<and>
   pending (payment_received settled_h1 restart_state) = [] \<and>
   payment_received settled_h1 (payment_received settled_h1 restart_state) =
     payment_received settled_h1 restart_state \<and>
   state settled_h1 = Some ''settled'' \<and> state (with_owner invoice_h1 ''A'') = Some ''pending'' \<and>
   find (lookup_matches settled_h1) (pending restart_state) = Some (with_owner invoice_h1 ''A'') \<and>
   get_balance ''A'' (snd (lookup_invoice_resume (Inr settled_h1) restart_state)) = 150 \<and>
   pending (snd (lookup_invoice_resume (Inr settled_h1) restart_state)) = [] \<and>
   snd (lookup_invoice_resume (Inr settled_h1)
     (snd (lookup_invoice_resume (Inr settled_h1) restart_state))) =
     snd (lookup_invoice_resume (Inr settled_h1) restart_state)"
proof -
  let ?p = "with_owner invoice_h1 ''A''"
  have t: "tx_type settled_h1 = ''incoming''" "state settled_h1 = Some ''settled''"
    "state ?p = Some ''pending''" "owner ?p = ''A''" "amount ?p = 50"
    by (simp_all add: example_defs)
  have f: "find (notification_matches settled_h1) (pending restart_state) = Some ?p"
    "find (lookup_matches settled_h1) (pending restart_state) = Some ?p"
    by (simp_all add: match_defs example_defs)
  have b: "get_balance ''A'' restart_state = 100"
    by (simp add: get_balance_def example_defs)
  have ps: "pending restart_state = [?p]"
    by (simp add: example_defs)
  note inst = settlement_credited_once
    [where n = settled_h1 and check = settled_h1 and s = restart_state and p = ?p]
  from inst t f b have 1: "get_balance ''A'' (payment_received settled_h1 restart_state) = 150"
    "get_balance ''A'' (snd (lookup_invoice_resume (Inr settled_h1) restart_state)) = 150"
    by simp_all
  from inst t f ps have 2: "pending (payment_received settled_h1 restart_state) = []"
    "pending (snd (lookup_invoice_resume (Inr settled_h1) restart_state)) = []"
    by simp_all
  from inst t f 2 have 3:
    "payment_received settled_h1 (payment_received settled_h1 restart_state) =
       payment_received settled_h1 restart_state"
    "snd (lookup_invoice_resume (Inr settled_h1)
       (snd (lookup_invoice_resume (Inr settled_h1) restart_state))) =
       snd (lookup_invoice_resume (Inr settled_h1) restart_state)"
    by simp_all
  from t f b 1 2 3 show ?thesis by simp
qed

subsection \<open>The two paths\<close>

text \<open>
  On an entry in state \<^verbatim>\<open>pending\<close>, a notification of type \<^verbatim>\<open>incoming\<close> and a lookup
  result in state \<^verbatim>\<open>settled\<close> with the same keys leave the same balances and the same
  table.
\<close>

lemma paths_agree_on_pending_entries:
  assumes "tx_type e = ''incoming''" and "state e = Some ''settled''"
    and "find (notification_matches e) (pending s) = Some p" and "state p = Some ''pending''"
  shows "balances (payment_received e s) = balances (snd (lookup_invoice_resume (Inr e) s))"
    and "pending (payment_received e s) = pending (snd (lookup_invoice_resume (Inr e) s))"
proof -
  have eq: "notification_matches e = lookup_matches e"
    by (rule ext) (rule same_match_predicate)
  with assms(3) have "find (lookup_matches e) (pending s) = Some p" by simp
  with assms eq
  show "balances (payment_received e s) = balances (snd (lookup_invoice_resume (Inr e) s))"
    and "pending (payment_received e s) = pending (snd (lookup_invoice_resume (Inr e) s))"
    by (simp_all add: payment_received_def lookup_invoice_resume_def)
qed

text \<open>
  Claim C4 says that both paths credit and remove the first match only if its state
  is \<^verbatim>\<open>pending\<close>. \<^verbatim>\<open>lookup_invoice\<close> tests \<^verbatim>\<open>existing?.state === "pending"\<close>; the
  notification handler tests \<^verbatim>\<open>existing\<close> alone. For a table entry in state
  \<^verbatim>\<open>expired\<close> that both predicates match, the lookup path leaves the state as it is and
  the notification path credits the owner (100 to 150) and removes the entry.
\<close>

theorem notification_credits_whatever_the_state:
  "state (with_owner (invoice_h1\<lparr>state := Some ''expired''\<rparr>) ''A'') \<noteq> Some ''pending'' \<and>
   find (notification_matches settled_h1)
     (pending (ledger [with_owner (invoice_h1\<lparr>state := Some ''expired''\<rparr>) ''A''])) =
     Some (with_owner (invoice_h1\<lparr>state := Some ''expired''\<rparr>) ''A'') \<and>
   find (lookup_matches settled_h1)
     (pending (ledger [with_owner (invoice_h1\<lparr>state := Some ''expired''\<rparr>) ''A''])) =
     Some (with_owner (invoice_h1\<lparr>state := Some ''expired''\<rparr>) ''A'') \<and>
   snd (lookup_invoice_resume (Inr settled_h1)
     (ledger [with_owner (invoice_h1\<lparr>state := Some ''expired''\<rparr>) ''A''])) =
     ledger [with_owner (invoice_h1\<lparr>state := Some ''expired''\<rparr>) ''A''] \<and>
   get_balance ''A'' (ledger [with_owner (invoice_h1\<lparr>state := Some ''expired''\<rparr>) ''A'']) = 100 \<and>
   get_balance ''A'' (payment_received settled_h1
     (ledger [with_owner (invoice_h1\<lparr>state := Some ''expired''\<rparr>) ''A''])) = 150 \<and>
   pending (payment_received settled_h1
     (ledger [with_owner (invoice_h1\<lparr>state := Some ''expired''\<rparr>) ''A''])) = []"
  by (simp add: payment_received_def lookup_invoice_resume_def get_balance_def match_defs
      example_defs)

section \<open>Balances stay non-negative\<close>

lemma pay_invoice_begin_locals:
  "pay_invoice_begin c params s = (Inr locals, s') \<Longrightarrow> snd locals \<le> fst locals"
  by (auto simp: pay_invoice_begin_def Let_def split: if_splits)

lemma pay_invoice_begin_balances:
  "pay_invoice_begin c params s = (r, s') \<Longrightarrow> balances s' = balances s"
  by (auto simp: pay_invoice_begin_def Let_def split: if_splits)

lemma pay_invoice_resume_non_negative:
  assumes "snd locals \<le> fst locals" and "0 \<le> get_balance c s"
  shows "0 \<le> get_balance c (snd (pay_invoice_resume c' locals result s))"
  using assms by (cases result) (simp_all add: pay_invoice_resume_def get_balance_def)

lemma pay_invoice_non_negative:
  assumes "0 \<le> get_balance c s"
  shows "0 \<le> get_balance c (snd (pay_invoice c' params result s))"
proof (cases "pay_invoice_begin c' params s")
  case (Pair r s')
  then have b: "0 \<le> get_balance c s'"
    using assms pay_invoice_begin_balances [OF Pair] by (simp add: get_balance_def)
  show ?thesis
  proof (cases r)
    case (Inl e)
    with Pair b show ?thesis by (simp add: pay_invoice_def)
  next
    case (Inr locals)
    with Pair have "snd locals \<le> fst locals" by (simp add: pay_invoice_begin_locals)
    from pay_invoice_resume_non_negative [OF this b] Pair Inr show ?thesis
      by (simp add: pay_invoice_def)
  qed
qed

lemma payment_received_non_negative:
  assumes "\<forall>p\<in>set (pending s). 0 \<le> amount p" and "0 \<le> get_balance c s"
  shows "0 \<le> get_balance c (payment_received n s)"
proof (cases "find (notification_matches n) (pending s)")
  case None
  with assms show ?thesis by (simp add: payment_received_def)
next
  case (Some p)
  then have "0 \<le> amount p" using assms(1) find_in_set by fastforce
  with Some assms(2) show ?thesis
    by (auto simp: payment_received_def get_balance_def)
qed

lemma lookup_invoice_resume_non_negative:
  assumes "\<forall>p\<in>set (pending s). 0 \<le> amount p" and "0 \<le> get_balance c s"
  shows "0 \<le> get_balance c (snd (lookup_invoice_resume result s))"
proof (cases result)
  case (Inl e)
  with assms show ?thesis by (simp add: lookup_invoice_resume_def)
next
  case (Inr check)
  show ?thesis
  proof (cases "find (lookup_matches check) (pending s)")
    case None
    with Inr assms show ?thesis by (simp add: lookup_invoice_resume_def)
  next
    case (Some p)
    then have "0 \<le> amount p" using assms(1) find_in_set by fastforce
    with Some Inr assms(2) show ?thesis
      by (auto simp: lookup_invoice_resume_def get_balance_def)
  qed
qed

lemma createWalletService_non_negative:
  "0 \<le> get_balance c s \<Longrightarrow> 0 \<le> get_balance c (createWalletService c' s)"
  by (simp add: createWalletService_def get_balance_def Let_def)

text \<open>
  Claim C5 lets the start state be any state with non-negative balances. The credit
  adds the amount stored with the pending invoice, whatever its sign, and nothing in the
  code checks it: with an invoice of amount \<open>-50\<close> in the table, the settlement takes the
  balance of its owner from 0 to \<open>-50\<close>.
\<close>

theorem negative_amount_credited:
  "get_balance ''A'' (ledger [with_owner (invoice_h1\<lparr>amount := - 50\<rparr>) ''B'']) = 100 \<and>
   get_balance ''B'' (ledger [with_owner (invoice_h1\<lparr>amount := - 50\<rparr>) ''B'']) = 0 \<and>
   dom (balances (ledger [with_owner (invoice_h1\<lparr>amount := - 50\<rparr>) ''B''])) = {''A'', ''B''} \<and>
   get_balance ''B'' (payment_received settled_h1
     (ledger [with_owner (invoice_h1\<lparr>amount := - 50\<rparr>) ''B''])) = - 50"
  by (auto simp add: payment_received_def get_balance_def match_defs example_defs)

text \<open>
  Claim C5, amended. For every client \<open>c\<close> whose balance is non-negative in a state \<open>s\<close>,
  the balance of \<open>c\<close> is non-negative after every operation that writes a balance:
  the deduction of \<^verbatim>\<open>pay_invoice\<close>, resumed in \<open>s\<close> with the locals of a request that
  passed its check in any earlier state, or run without interruption; the first-contact
  initialisation (\<open>createWalletService\<close>, \<open>on_request\<close>); and, provided no pending invoice
  has a negative amount, the credit of a settlement by notification or by lookup.
\<close>

theorem balance_stays_non_negative:
  "0 \<le> get_balance c s \<Longrightarrow>
   (\<forall>c' params s0 s0' locals result.
      pay_invoice_begin c' params s0 = (Inr locals, s0') \<longrightarrow>
      0 \<le> get_balance c (snd (pay_invoice_resume c' locals result s))) \<and>
   (\<forall>c' params result. 0 \<le> get_balance c (snd (pay_invoice c' params result s))) \<and>
   ((\<forall>p\<in>set (pending s). 0 \<le> amount p) \<longrightarrow>
      (\<forall>n. 0 \<le> get_balance c (payment_received n s)) \<and>
      (\<forall>result. 0 \<le> get_balance c (snd (lookup_invoice_resume result s)))) \<and>
   (\<forall>c'. 0 \<le> get_balance c (createWalletService c' s)) \<and>
   (\<forall>c'. 0 \<le> get_balance c (on_request c' s))"
  by (intro conjI allI impI)
    (simp_all add: pay_invoice_resume_non_negative pay_invoice_begin_locals
      pay_invoice_non_negative payment_received_non_negative
      lookup_invoice_resume_non_negative createWalletService_non_negative on_request_def)

text \<open>
  From the restart scenario: a payment of 60 resumed after the settlement of \<open>h1\<close>, the
  settlement itself by both paths, and a first request of a new client \<open>C\<close>.
\<close>

theorem balance_stays_non_negative_witness:
  "0 \<le> get_balance ''A'' restart_state \<and>
   map amount (pending restart_state) = [50] \<and>
   pay_invoice_begin ''A'' (pay (Some 60)) restart_state =
     (Inr (100, 60), snd (pay_invoice_begin ''A'' (pay (Some 60)) restart_state)) \<and>
   0 \<le> get_balance ''A'' (snd (pay_invoice_resume ''A'' (100, 60) (Inr (PayResult ''ok''))
          (payment_received settled_h1 restart_state))) \<and>
   0 \<le> get_balance ''A''
          (snd (pay_invoice ''A'' (pay (Some 60)) (Inr (PayResult ''ok'')) restart_state)) \<and>
   0 \<le> get_balance ''A'' (payment_received settled_h1 restart_state) \<and>
   0 \<le> get_balance ''A'' (snd (lookup_invoice_resume (Inr settled_h1) restart_state)) \<and>
   0 \<le> get_balance ''C'' (createWalletService ''C'' restart_state) \<and>
   0 \<le> get_balance ''C'' (on_request ''C'' restart_state)"
proof -
  have a: "0 \<le> get_balance ''A'' restart_state" "0 \<le> get_balance ''C'' restart_state"
    by (simp_all add: get_balance_def example_defs)
  have p: "map amount (pending restart_state) = [50]"
    by (simp add: example_defs)
  then have q: "\<forall>p\<in>set (pending restart_state). 0 \<le> amount p"
    by (simp add: example_defs)
  have b: "pay_invoice_begin ''A'' (pay (Some 60)) restart_state =
     (Inr (100, 60), snd (pay_invoice_begin ''A'' (pay (Some 60)) restart_state))"
    by (simp add: pay_invoice_begin_def example_defs)
  have a': "0 \<le> get_balance ''A'' (payment_received settled_h1 restart_state)"
    using balance_stays_non_negative [OF a(1)] q by blast
  have 1: "0 \<le> get_balance ''A'' (snd (pay_invoice_resume ''A'' (100, 60)
          (Inr (PayResult ''ok'')) (payment_received settled_h1 restart_state)))"
    using balance_stays_non_negative [OF a'] b by blast
  have 2: "0 \<le> get_balance ''A''
          (snd (pay_invoice ''A'' (pay (Some 60)) (Inr (PayResult ''ok'')) restart_state))"
    "0 \<le> get_balance ''A'' (snd (lookup_invoice_resume (Inr settled_h1) restart_state))"
    using balance_stays_non_negative [OF a(1)] q by blast+
  have 3: "0 \<le> get_balance ''C'' (createWalletService ''C'' restart_state)"
    "0 \<le> get_balance ''C'' (on_request ''C'' restart_state)"
    using balance_stays_non_negative [OF a(2)] by blast+
  from a p b a' 1 2 3 show ?thesis by blast
qed

section \<open>The pending table\<close>

text \<open>
  Claim C6. Pruning at time \<open>now\<close> removes every pending invoice whose expiry timestamp
  is at or before \<open>now\<close>, whatever its state (the statement is for every \<open>p\<close>); it adds no
  entry, and it leaves every balance unchanged.
\<close>

theorem prune_drops_expired:
  "(\<forall>p e. expires_at p = Some e \<and> e \<le> now \<longrightarrow> p \<notin> set (pending (prunePending now s))) \<and>
   set (pending (prunePending now s)) \<subseteq> set (pending s) \<and>
   balances (prunePending now s) = balances s"
  by (auto simp: prunePending_def keeps_def)

text \<open>At time 2500 a settled invoice that expired at 2000 is dropped and not credited.\<close>

theorem prune_drops_expired_witness:
  "expires_at (with_owner settled_h1 ''A'') = Some 2000 \<and> (2000::int) \<le> 2500 \<and>
   with_owner settled_h1 ''A'' \<in>
     set (pending (ledger [with_owner settled_h1 ''A'', with_owner invoice_h2 ''B''])) \<and>
   with_owner settled_h1 ''A'' \<notin>
     set (pending (prunePending 2500
       (ledger [with_owner settled_h1 ''A'', with_owner invoice_h2 ''B'']))) \<and>
   balances (prunePending 2500 (ledger [with_owner settled_h1 ''A'', with_owner invoice_h2 ''B''])) =
     balances (ledger [with_owner settled_h1 ''A'', with_owner invoice_h2 ''B''])"
proof -
  have e: "expires_at (with_owner settled_h1 ''A'') = Some 2000"
    by (simp add: example_defs)
  have m: "with_owner settled_h1 ''A'' \<in>
      set (pending (ledger [with_owner settled_h1 ''A'', with_owner invoice_h2 ''B'']))"
    by (simp add: example_defs)
  from e m prune_drops_expired
    [where now = 2500 and s = "ledger [with_owner settled_h1 ''A'', with_owner invoice_h2 ''B'']"]
  show ?thesis by simp
qed

text \<open>
  Claim C9. \<open>prunePending\<close> keeps exactly the pending invoices whose expiry timestamp
  is present, not zero and strictly greater than the current time, in their order. An
  entry with no expiry timestamp, or with the timestamp \<open>0\<close>, is removed.
\<close>

theorem prune_keeps_exactly:
  "pending (prunePending now s) =
     filter (\<lambda>p. \<exists>e. expires_at p = Some e \<and> e \<noteq> 0 \<and> now < e) (pending s) \<and>
   (expires_at p = None \<or> expires_at p = Some 0 \<longrightarrow> p \<notin> set (pending (prunePending now s)))"
proof -
  have "keeps now = (\<lambda>p. \<exists>e. expires_at p = Some e \<and> e \<noteq> 0 \<and> now < e)"
    by (auto simp: keeps_def fun_eq_iff split: option.splits)
  then show ?thesis
    by (auto simp: prunePending_def)
qed

text \<open>
  At time 2500, of an invoice that expires at 2000, a pending invoice without expiry
  and an invoice that expires at 3000, only the last is kept.
\<close>

theorem prune_keeps_exactly_witness:
  "expires_at (with_owner (only_payment_hash ''h3'') ''A'') = None \<and>
   state (with_owner (only_payment_hash ''h3'') ''A'') = Some ''pending'' \<and>
   pending (prunePending 2500
     (ledger [with_owner invoice_h1 ''A'', with_owner (only_payment_hash ''h3'') ''A'',
        with_owner invoice_h2 ''B''])) = [with_owner invoice_h2 ''B''] \<and>
   with_owner (only_payment_hash ''h3'') ''A'' \<notin> set (pending (prunePending 2500
     (ledger [with_owner invoice_h1 ''A'', with_owner (only_payment_hash ''h3'') ''A'',
        with_owner invoice_h2 ''B''])))"
proof -
  have e: "expires_at (with_owner (only_payment_hash ''h3'') ''A'') = None"
    "state (with_owner (only_payment_hash ''h3'') ''A'') = Some ''pending''"
    by (simp_all add: only_payment_hash_def with_owner_def)
  from e prune_keeps_exactly
    [where now = 2500 and p = "with_owner (only_payment_hash ''h3'') ''A''"
       and s = "ledger [with_owner invoice_h1 ''A'', with_owner (only_payment_hash ''h3'') ''A'',
          with_owner invoice_h2 ''B'']"]
  show ?thesis
    by (simp add: example_defs only_payment_hash_def)
qed

text \<open>
  Claim C7. A \<^verbatim>\<open>make_invoice\<close> call of client \<open>c\<close> calls the upstream wallet once. When
  the upstream returns a transaction \<open>t\<close>, the handler returns \<open>t\<close> and the table is the
  old table followed by exactly one new entry, \<open>t\<close> with owner \<open>c\<close>. When the upstream
  fails, the error is passed on and the table is unchanged. No balance changes.
\<close>

theorem make_invoice_appends_one:
  "(\<forall>t. result = Inr t \<longrightarrow>
      fst (make_invoice c params result s) = Inr t \<and>
      pending (snd (make_invoice c params result s)) = pending s @ [with_owner t c] \<and>
      owner (with_owner t c) = c \<and>
      length (pending (snd (make_invoice c params result s))) = Suc (length (pending s))) \<and>
   (\<forall>e. result = Inl e \<longrightarrow>
      fst (make_invoice c params result s) = Inl e \<and>
      pending (snd (make_invoice c params result s)) = pending s) \<and>
   upstream_calls (snd (make_invoice c params result s)) =
     upstream_calls s @ [MakeInvoice (make_amount params) params] \<and>
   balances (snd (make_invoice c params result s)) = balances s"
  by (cases result)
    (simp_all add: make_invoice_def make_invoice_begin_def make_invoice_resume_def with_owner_def)

text \<open>Client \<open>B\<close> asks for the invoice \<open>h2\<close>; the upstream creates it, or fails.\<close>

theorem make_invoice_appends_one_witness:
  "pending (snd (make_invoice ''B''
      \<lparr>make_amount = 70, make_description = None, make_description_hash = Some ''d1'',
       make_expiry = None\<rparr> (Inr invoice_h2) restart_state)) =
     [with_owner invoice_h1 ''A'', with_owner invoice_h2 ''B''] \<and>
   owner (with_owner invoice_h2 ''B'') = ''B'' \<and>
   pending (snd (make_invoice ''B''
      \<lparr>make_amount = 70, make_description = None, make_description_hash = Some ''d1'',
       make_expiry = None\<rparr> (Inl (Error ''unreachable'')) restart_state)) =
     [with_owner invoice_h1 ''A'']"
proof -
  have p: "pending restart_state = [with_owner invoice_h1 ''A'']"
    by (simp add: restart_state_def ledger_def)
  from p make_invoice_appends_one
    [where c = "''B''" and s = restart_state and result = "Inr invoice_h2"]
  have 1: "pending (snd (make_invoice ''B''
      \<lparr>make_amount = 70, make_description = None, make_description_hash = Some ''d1'',
       make_expiry = None\<rparr> (Inr invoice_h2) restart_state)) =
     [with_owner invoice_h1 ''A'', with_owner invoice_h2 ''B'']"
    "owner (with_owner invoice_h2 ''B'') = ''B''"
    by simp_all
  from p make_invoice_appends_one
    [where c = "''B''" and s = restart_state and result = "Inl (Error ''unreachable'')"]
  have 2: "pending (snd (make_invoice ''B''
      \<lparr>make_amount = 70, make_description = None, make_description_hash = Some ''d1'',
       make_expiry = None\<rparr> (Inl (Error ''unreachable'')) restart_state)) =
     [with_owner invoice_h1 ''A'']"
    by simp
  from 1 2 show ?thesis by simp
qed

end
